theory Spec2Isabelle
  imports Main "HOL-Library.Sublist"
begin

section \<open>Date estimation service: heuristic rule table, LLM fallback, date capping\<close>

text \<open>
  A shallow embedding of the date estimation service
  (\<^verbatim>\<open>estimateDates\<close>, \<^verbatim>\<open>getLLMEstimate\<close>, \<^verbatim>\<open>getHeuristicEstimate\<close>,
  \<^verbatim>\<open>HEURISTIC_RULES\<close>) together with the part of the ECMAScript \<^verbatim>\<open>Date\<close> object
  the service uses.

  Conventions of the model:
  \<^item> a JavaScript number is an integer or \<open>NaN\<close> (type \<open>number\<close>); fractional day
    counts are outside the model;
  \<^item> a property that may be \<^verbatim>\<open>undefined\<close> is an \<open>option\<close> (\<open>None\<close> is
    \<^verbatim>\<open>undefined\<close>);
  \<^item> a thrown exception, that is a rejected promise of the \<^verbatim>\<open>async\<close> function, is
    \<open>Inl\<close> of a sum;
  \<^item> the answer of the remote endpoint to the one \<^verbatim>\<open>fetch\<close> of a call is an
    argument (\<open>fetch_result\<close>);
  \<^item> the host's local time zone is an argument \<open>tz\<close>, its offset from UTC in
    milliseconds, constant over the interval of a call (a zone whose offset changes
    between the purchase instant and a computed instant is outside the model);
  \<^item> strings are 8-bit character lists; \<^verbatim>\<open>toLowerCase\<close> acts on the letters A-Z.
\<close>

subsection \<open>Numbers\<close>

datatype number = Num int | NaN

text \<open>\<^verbatim>\<open>a + b\<close> where \<open>b\<close> is a property that may be undefined: \<^verbatim>\<open>undefined\<close>
  converts to \<open>NaN\<close>.\<close>

fun plus_number :: "number \<Rightarrow> int option \<Rightarrow> number" where
  "plus_number (Num a) (Some b) = Num (a + b)"
| "plus_number (Num a) None = NaN"
| "plus_number NaN b = NaN"

text \<open>\<^verbatim>\<open>a > b\<close> on numbers: false when either side is \<open>NaN\<close>.\<close>

fun greater_than :: "number \<Rightarrow> number \<Rightarrow> bool" where
  "greater_than (Num a) (Num b) = (b < a)"
| "greater_than (Num a) NaN = False"
| "greater_than NaN b = False"

fun Math_min :: "number \<Rightarrow> number \<Rightarrow> number" where
  "Math_min (Num a) (Num b) = Num (min a b)"
| "Math_min (Num a) NaN = NaN"
| "Math_min NaN b = NaN"

text \<open>\<^verbatim>\<open>a === b\<close> on numbers: \<open>NaN\<close> is not equal to itself.\<close>

fun strict_equals :: "number \<Rightarrow> number \<Rightarrow> bool" where
  "strict_equals (Num a) (Num b) = (a = b)"
| "strict_equals (Num a) NaN = False"
| "strict_equals NaN b = False"

subsection \<open>The Date object (ECMA-262, Date Objects)\<close>

text \<open>A time value is a number of milliseconds since 1970-01-01T00:00:00Z, or \<open>NaN\<close>
  (an invalid Date).\<close>

definition msPerDay :: int where
  "msPerDay = 86400000"

definition Day :: "int \<Rightarrow> int" where
  "Day t = t div msPerDay"

definition TimeWithinDay :: "int \<Rightarrow> int" where
  "TimeWithinDay t = t mod msPerDay"

definition DaysInYear :: "int \<Rightarrow> int" where
  "DaysInYear y =
     (if y mod 4 \<noteq> 0 then 365
      else if y mod 100 \<noteq> 0 then 366
      else if y mod 400 \<noteq> 0 then 365
      else 366)"

definition DayFromYear :: "int \<Rightarrow> int" where
  "DayFromYear y =
     365 * (y - 1970) + (y - 1969) div 4 - (y - 1901) div 100 + (y - 1601) div 400"

text \<open>The year of a day number: the largest \<open>y\<close> with \<open>DayFromYear y \<le> d\<close>
  (lemma \<open>YearFromDay_bounds\<close>), found among the three candidates around the mean-year
  estimate.\<close>

definition YearFromDay :: "int \<Rightarrow> int" where
  "YearFromDay d =
     (let y = 1970 + (400 * d) div 146097
      in if DayFromYear (y + 1) \<le> d then y + 1
         else if DayFromYear y \<le> d then y
         else y - 1)"

definition YearFromTime :: "int \<Rightarrow> int" where
  "YearFromTime t = YearFromDay (Day t)"

definition InLeapYear :: "int \<Rightarrow> bool" where
  "InLeapYear t = (DaysInYear (YearFromTime t) = 366)"

definition DayWithinYear :: "int \<Rightarrow> int" where
  "DayWithinYear t = Day t - DayFromYear (YearFromTime t)"

text \<open>The day within the year on which month \<open>m\<close> (0 = January) begins.\<close>

definition MonthStart :: "bool \<Rightarrow> int \<Rightarrow> int" where
  "MonthStart leap m =
     (if m \<le> 0 then 0
      else if m = 1 then 31
      else (if leap then 1 else 0) +
        (if m = 2 then 59 else if m = 3 then 90 else if m = 4 then 120
         else if m = 5 then 151 else if m = 6 then 181 else if m = 7 then 212
         else if m = 8 then 243 else if m = 9 then 273 else if m = 10 then 304
         else if m = 11 then 334 else 365))"

definition MonthFromDayWithinYear :: "bool \<Rightarrow> int \<Rightarrow> int" where
  "MonthFromDayWithinYear leap d =
     (if d < MonthStart leap 1 then 0
      else if d < MonthStart leap 2 then 1
      else if d < MonthStart leap 3 then 2
      else if d < MonthStart leap 4 then 3
      else if d < MonthStart leap 5 then 4
      else if d < MonthStart leap 6 then 5
      else if d < MonthStart leap 7 then 6
      else if d < MonthStart leap 8 then 7
      else if d < MonthStart leap 9 then 8
      else if d < MonthStart leap 10 then 9
      else if d < MonthStart leap 11 then 10
      else 11)"

definition MonthFromTime :: "int \<Rightarrow> int" where
  "MonthFromTime t = MonthFromDayWithinYear (InLeapYear t) (DayWithinYear t)"

definition DateFromTime :: "int \<Rightarrow> int" where
  "DateFromTime t = DayWithinYear t - MonthStart (InLeapYear t) (MonthFromTime t) + 1"

text \<open>\<open>MakeDay\<close> for a month in 0..11 (the only use here): the day number of the first
  of the month, plus \<open>date - 1\<close>; \<open>date\<close> may lie outside the month.\<close>

definition MakeDay :: "int \<Rightarrow> int \<Rightarrow> int \<Rightarrow> int" where
  "MakeDay year month date =
     DayFromYear year + MonthStart (DaysInYear year = 366) month + date - 1"

definition MakeDate :: "int \<Rightarrow> int \<Rightarrow> int" where
  "MakeDate day time = day * msPerDay + time"

definition TimeClip :: "int \<Rightarrow> number" where
  "TimeClip t = (if 8640000000000000 < \<bar>t\<bar> then NaN else Num t)"

text \<open>\<^verbatim>\<open>getDate()\<close>: the day of the month in local time.\<close>

fun getDate :: "int \<Rightarrow> number \<Rightarrow> number" where
  "getDate tz (Num t) = Num (DateFromTime (t + tz))"
| "getDate tz NaN = NaN"

text \<open>\<^verbatim>\<open>setDate(dt)\<close>: replaces the day of the month in local time; the new time
  value is returned.\<close>

fun setDate :: "int \<Rightarrow> number \<Rightarrow> number \<Rightarrow> number" where
  "setDate tz (Num t) (Num dt) =
     (let l = t + tz;
          newDate = MakeDate (MakeDay (YearFromTime l) (MonthFromTime l) dt) (TimeWithinDay l)
      in TimeClip (newDate - tz))"
| "setDate tz (Num t) NaN = NaN"
| "setDate tz NaN dt = NaN"

subsubsection \<open>Date strings\<close>

definition digitValue :: "char \<Rightarrow> int option" where
  "digitValue c =
     (let n = (of_char c :: nat) in if 48 \<le> n \<and> n \<le> 57 then Some (int n - 48) else None)"

fun digits :: "int \<Rightarrow> string \<Rightarrow> int option" where
  "digits a [] = Some a"
| "digits a (c # cs) =
     (case digitValue c of None \<Rightarrow> None | Some v \<Rightarrow> digits (10 * a + v) cs)"

text \<open>\<^verbatim>\<open>new Date(s)\<close> for the date-only form \<^verbatim>\<open>YYYY-MM-DD\<close> of the ECMAScript date
  time string format, read as UTC midnight. Every other string is an invalid Date in
  the model (the standard leaves strings outside its format to the implementation).\<close>

definition Date_parse :: "string \<Rightarrow> number" where
  "Date_parse s =
     (if length s = 10 \<and> s ! 4 = CHR ''-'' \<and> s ! 7 = CHR ''-'' then
        (case (digits 0 (take 4 s), digits 0 (take 2 (drop 5 s)), digits 0 (drop 8 s)) of
           (Some y, Some m, Some d) \<Rightarrow>
             (if 1 \<le> m \<and> m \<le> 12 \<and> 1 \<le> d \<and>
                 d \<le> MonthStart (DaysInYear y = 366) m - MonthStart (DaysInYear y = 366) (m - 1)
              then Num (MakeDate (MakeDay y (m - 1) d) 0)
              else NaN)
         | _ \<Rightarrow> NaN)
      else NaN)"

definition digit :: "int \<Rightarrow> char" where
  "digit n = char_of (48 + n)"

fun pad :: "nat \<Rightarrow> int \<Rightarrow> string" where
  "pad 0 n = []"
| "pad (Suc k) n = pad k (n div 10) @ [digit (n mod 10)]"

definition YearString :: "int \<Rightarrow> string" where
  "YearString y =
     (if 0 \<le> y \<and> y \<le> 9999 then pad 4 y
      else (if y < 0 then CHR ''-'' else CHR ''+'') # pad 6 \<bar>y\<bar>)"

datatype js_error = TypeError | RangeError

text \<open>The date part of the ISO string of a time value: its UTC calendar date.\<close>

definition ISODate :: "int \<Rightarrow> string" where
  "ISODate t =
     YearString (YearFromTime t) @ ''-'' @ pad 2 (MonthFromTime t + 1) @ ''-'' @
     pad 2 (DateFromTime t)"

text \<open>\<^verbatim>\<open>d.toISOString().split('T')[0]\<close>; \<^verbatim>\<open>toISOString\<close> throws a RangeError on an
  invalid Date.\<close>

fun toISODate :: "number \<Rightarrow> js_error + string" where
  "toISODate NaN = Inl RangeError"
| "toISODate (Num t) = Inr (ISODate t)"

subsection \<open>Heuristic rules by category and keywords\<close>

record horizon =
  shelf_life :: "int option"
  restock :: "int option"

record category_rule =
  default_pair :: horizon
  keywords_entries :: "(string \<times> horizon) list"

definition days :: "int \<Rightarrow> int \<Rightarrow> horizon" where
  "days s r = \<lparr>shelf_life = Some s, restock = Some r\<rparr>"

definition HEURISTIC_RULES :: "(string \<times> category_rule) list" where
  "HEURISTIC_RULES =
   [(''Produce'', \<lparr>default_pair = days 5 7, keywords_entries =
       [(''apple'', days 14 14), (''banana'', days 7 7), (''lettuce'', days 5 7),
        (''spinach'', days 3 7), (''tomato'', days 7 10), (''avocado'', days 5 7),
        (''carrot'', days 21 14), (''onion'', days 30 21), (''potato'', days 30 21)]\<rparr>),
    (''Dairy'', \<lparr>default_pair = days 7 10, keywords_entries =
       [(''milk'', days 7 7), (''cheese'', days 14 14), (''yogurt'', days 14 10),
        (''butter'', days 30 30), (''eggs'', days 25 14), (''cream'', days 5 10)]\<rparr>),
    (''Meat'', \<lparr>default_pair = days 2 7, keywords_entries =
       [(''chicken'', days 2 7), (''beef'', days 3 10), (''pork'', days 3 10),
        (''fish'', days 1 7), (''ground'', days 1 7), (''frozen'', days 90 30)]\<rparr>),
    (''Pantry'', \<lparr>default_pair = days 180 60, keywords_entries =
       [(''bread'', days 7 7), (''pasta'', days 365 90), (''rice'', days 365 90),
        (''cereal'', days 60 30), (''flour'', days 180 90), (''oil'', days 365 180),
        (''canned'', days 730 90)]\<rparr>),
    (''Frozen'', \<lparr>default_pair = days 90 30, keywords_entries =
       [(''ice cream'', days 60 30), (''vegetables'', days 180 60), (''fruit'', days 180 60),
        (''pizza'', days 90 30)]\<rparr>),
    (''Beverages'', \<lparr>default_pair = days 90 30, keywords_entries =
       [(''juice'', days 7 14), (''soda'', days 90 30), (''water'', days 365 30),
        (''coffee'', days 180 60), (''tea'', days 365 90)]\<rparr>),
    (''Household'', \<lparr>default_pair = days 365 90, keywords_entries =
       [(''paper'', days 365 60), (''detergent'', days 365 90), (''soap'', days 365 60)]\<rparr>),
    (''Personal Care'', \<lparr>default_pair = days 365 90, keywords_entries =
       [(''toothpaste'', days 730 90), (''shampoo'', days 365 90),
        (''deodorant'', days 365 90)]\<rparr>),
    (''Baby'', \<lparr>default_pair = days 30 14, keywords_entries =
       [(''formula'', days 30 14), (''diapers'', days 365 30), (''food'', days 14 14)]\<rparr>),
    (''Pet'', \<lparr>default_pair = days 90 30, keywords_entries =
       [(''food'', days 90 30), (''treats'', days 180 60), (''litter'', days 365 30)]\<rparr>)]"

text \<open>\<^verbatim>\<open>HEURISTIC_RULES[category]\<close> is a property read on an object literal: an own
  property wins, then the prototype chain is searched, so the names that
  \<^verbatim>\<open>Object.prototype\<close> defines are found there (functions, or for \<^verbatim>\<open>__proto__\<close> the
  prototype object itself: truthy values without a \<^verbatim>\<open>keywords\<close> or a \<^verbatim>\<open>default\<close>
  property).\<close>

definition Object_prototype :: "string list" where
  "Object_prototype =
     [''constructor'', ''hasOwnProperty'', ''isPrototypeOf'', ''propertyIsEnumerable'',
      ''toLocaleString'', ''toString'', ''valueOf'', ''__proto__'', ''__defineGetter__'',
      ''__defineSetter__'', ''__lookupGetter__'', ''__lookupSetter__'']"

datatype 'a property = Own 'a | Inherited | Undefined

definition getRules :: "string \<Rightarrow> category_rule property" where
  "getRules category =
     (case map_of HEURISTIC_RULES category of
        Some categoryRules \<Rightarrow> Own categoryRules
      | None \<Rightarrow> if category \<in> set Object_prototype then Inherited else Undefined)"

definition lowerChar :: "char \<Rightarrow> char" where
  "lowerChar c =
     (let n = (of_char c :: nat) in if 65 \<le> n \<and> n \<le> 90 then char_of (n + 32) else c)"

definition toLowerCase :: "string \<Rightarrow> string" where
  "toLowerCase s = map lowerChar s"

text \<open>\<^verbatim>\<open>s.includes(k)\<close>: \<open>k\<close> occurs in \<open>s\<close> as a contiguous substring.\<close>

fun String_includes :: "string \<Rightarrow> string \<Rightarrow> bool" where
  "String_includes [] k = (k = [])"
| "String_includes (c # cs) k = (prefix k (c # cs) \<or> String_includes cs k)"

text \<open>The \<^verbatim>\<open>for\<close> loop over \<^verbatim>\<open>Object.entries(categoryRules.keywords)\<close>, in insertion
  order (no keyword is an integer index); \<open>None\<close> when the loop ends without a return.\<close>

fun keywordMatch :: "string \<Rightarrow> (string \<times> horizon) list \<Rightarrow> horizon option" where
  "keywordMatch nameLower [] = None"
| "keywordMatch nameLower ((keyword, rule) # rest) =
     (if String_includes nameLower keyword then Some rule else keywordMatch nameLower rest)"

text \<open>\<open>None\<close> is the result \<^verbatim>\<open>undefined\<close>: the \<^verbatim>\<open>default\<close> property of an inherited
  value, whose \<^verbatim>\<open>keywords\<close> are \<^verbatim>\<open>undefined || {}\<close>.\<close>

definition getHeuristicEstimate :: "string \<Rightarrow> string \<Rightarrow> horizon option" where
  "getHeuristicEstimate name category =
     (case getRules category of
        Undefined \<Rightarrow> Some (days 30 30)
      | Inherited \<Rightarrow> None
      | Own categoryRules \<Rightarrow>
          (case keywordMatch (toLowerCase name) (keywords_entries categoryRules) of
             Some rule \<Rightarrow> Some rule
           | None \<Rightarrow> Some (default_pair categoryRules)))"

subsection \<open>The LLM estimate\<close>

text \<open>What the one \<^verbatim>\<open>fetch\<close> of a call comes to: the promise rejects (network error,
  abort), the status is not 2xx, the body is not JSON, the body is the JSON \<^verbatim>\<open>null\<close>
  (reading a property of it throws), or the body is a JSON value whose properties
  \<^verbatim>\<open>shelfLifeDays\<close> and \<^verbatim>\<open>restockDays\<close> are integers or absent.\<close>

datatype fetch_result =
    NetworkError
  | NotOk
  | InvalidJson
  | JsonNull
  | JsonObject "int option" "int option"

fun getLLMEstimate :: "fetch_result \<Rightarrow> horizon option" where
  "getLLMEstimate NetworkError = None"
| "getLLMEstimate NotOk = None"
| "getLLMEstimate InvalidJson = None"
| "getLLMEstimate JsonNull = None"
| "getLLMEstimate (JsonObject shelfLifeDays restockDays) =
     Some \<lparr>shelf_life = shelfLifeDays, restock = restockDays\<rparr>"

subsection \<open>estimateDates\<close>

record EstimateDatesInput =
  name :: string
  category :: string
  purchasedAt :: string

record EstimateDatesOutput =
  estimatedExpirationAt :: string
  estimatedRestockAt :: string
  source :: string

text \<open>The Date computations of \<^verbatim>\<open>estimateDates\<close>: the capped expiration date and the
  restock date, as time values.\<close>

definition calculateDates :: "int \<Rightarrow> number \<Rightarrow> horizon \<Rightarrow> number \<times> number" where
  "calculateDates tz purchaseDate estimate =
     (let expirationDate =
            setDate tz purchaseDate (plus_number (getDate tz purchaseDate) (shelf_life estimate));
          restockDate =
            setDate tz purchaseDate (plus_number (getDate tz purchaseDate) (restock estimate));
          maxExpirationDate =
            setDate tz purchaseDate (plus_number (getDate tz purchaseDate) (Some 365))
      in (if greater_than expirationDate maxExpirationDate then maxExpirationDate
          else expirationDate,
          restockDate))"

text \<open>The estimate and its source: the LLM's when there is one, else the heuristic one;
  \<open>None\<close> when the heuristic estimate is \<^verbatim>\<open>undefined\<close>.\<close>

definition chooseEstimate :: "fetch_result \<Rightarrow> EstimateDatesInput \<Rightarrow> (horizon \<times> string) option" where
  "chooseEstimate response input =
     (case getLLMEstimate response of
        Some estimate \<Rightarrow> Some (estimate, ''llm'')
      | None \<Rightarrow>
          (case getHeuristicEstimate (name input) (category input) of
             Some estimate \<Rightarrow> Some (estimate, ''heuristic'')
           | None \<Rightarrow> None))"

text \<open>\<^verbatim>\<open>estimateDates\<close>, given the zone offset and the answer to its one fetch. Reading
  \<^verbatim>\<open>estimate.shelf_life\<close> of an undefined estimate throws a TypeError; the returned
  object is built left to right, so \<^verbatim>\<open>expirationDate.toISOString()\<close> is evaluated
  first, and \<^verbatim>\<open>restockDate.toISOString()\<close> only when the restock time equals the
  minimum of the two times.\<close>

definition estimateDates ::
  "int \<Rightarrow> fetch_result \<Rightarrow> EstimateDatesInput \<Rightarrow> js_error + EstimateDatesOutput" where
  "estimateDates tz response input =
     (let purchaseDate = Date_parse (purchasedAt input)
      in case chooseEstimate response input of
           None \<Rightarrow> Inl TypeError
         | Some (estimate, src) \<Rightarrow>
             (case calculateDates tz purchaseDate estimate of
                (expirationDate, restockDate) \<Rightarrow>
                  (case toISODate expirationDate of
                     Inl err \<Rightarrow> Inl err
                   | Inr expiration \<Rightarrow>
                       (if strict_equals (Math_min expirationDate restockDate) restockDate
                        then (case toISODate restockDate of
                                Inl err \<Rightarrow> Inl err
                              | Inr restockStr \<Rightarrow>
                                  Inr \<lparr>estimatedExpirationAt = expiration,
                                       estimatedRestockAt = restockStr, source = src\<rparr>)
                        else Inr \<lparr>estimatedExpirationAt = expiration,
                                  estimatedRestockAt = expiration, source = src\<rparr>))))"

subsection \<open>Notions used to state the properties\<close>

text \<open>The time value \<open>n\<close> days after \<open>p\<close>, clipped to the range of a Date; an undefined
  day count gives an invalid Date. Lemma \<open>setDate_getDate_plus\<close> shows that this is what
  \<^verbatim>\<open>d.setDate(d.getDate() + h)\<close> computes.\<close>

definition addDays :: "int \<Rightarrow> int option \<Rightarrow> number" where
  "addDays p h = (case h of None \<Rightarrow> NaN | Some n \<Rightarrow> TimeClip (p + n * msPerDay))"

text \<open>The instant reported as the restock date, given the capped expiration instant
  and the restock Date: the earlier of the two, the expiration when the restock Date is
  invalid.\<close>

definition finalRestock :: "int \<Rightarrow> number \<Rightarrow> int" where
  "finalRestock e restockDate = (case restockDate of NaN \<Rightarrow> e | Num r \<Rightarrow> min e r)"

text \<open>The range of the day counts authored in \<open>HEURISTIC_RULES\<close>.\<close>

definition authored :: "horizon \<Rightarrow> bool" where
  "authored h =
     (case (shelf_life h, restock h) of
        (Some s, Some r) \<Rightarrow> 1 \<le> s \<and> s \<le> 730 \<and> 7 \<le> r \<and> r \<le> 180
      | _ \<Rightarrow> False)"

section \<open>Properties\<close>

subsection \<open>Date arithmetic\<close>

lemma MakeDay_DateFromTime:
  "MakeDay (YearFromTime l) (MonthFromTime l) (DateFromTime l + n) = Day l + n"
  by (simp add: MakeDay_def DateFromTime_def InLeapYear_def DayWithinYear_def)

lemma MakeDate_Day: "MakeDate (Day l + n) (TimeWithinDay l) = l + n * msPerDay"
proof -
  have "l div msPerDay * msPerDay + l mod msPerDay = l" by simp
  then show ?thesis
    by (simp add: MakeDate_def Day_def TimeWithinDay_def algebra_simps)
qed

text \<open>Adding to the day of the month in local time moves the time value by whole days,
  whatever the (constant) offset of the zone.\<close>

lemma setDate_getDate_plus:
  "setDate tz (Num t) (plus_number (getDate tz (Num t)) h) = addDays t h"
  by (cases h) (simp_all add: MakeDay_DateFromTime MakeDate_Day addDays_def)

lemma calculateDates_valid:
  "calculateDates tz (Num p) estimate =
     (if greater_than (addDays p (shelf_life estimate)) (addDays p (Some 365))
      then addDays p (Some 365) else addDays p (shelf_life estimate),
      addDays p (restock estimate))"
  unfolding calculateDates_def setDate_getDate_plus by (simp add: Let_def)

lemma calculateDates_invalid: "calculateDates tz NaN estimate = (NaN, NaN)"
  by (simp add: calculateDates_def)

lemma ISODate_Day: "Day a = Day b \<Longrightarrow> ISODate a = ISODate b"
  by (simp add: ISODate_def YearFromTime_def MonthFromTime_def DateFromTime_def
      InLeapYear_def DayWithinYear_def)

lemma Day_mono: "a \<le> b \<Longrightarrow> Day a \<le> Day b"
  by (simp add: Day_def msPerDay_def zdiv_mono1)

subsection \<open>The range of a parsed date\<close>

lemma digitValue_range: "digitValue c = Some v \<Longrightarrow> 0 \<le> v \<and> v \<le> 9"
  by (auto simp: digitValue_def Let_def split: if_splits)

lemma digits_range:
  "digits a cs = Some v \<Longrightarrow> a * 10 ^ length cs \<le> v \<and> v < (a + 1) * 10 ^ length cs"
proof (induction cs arbitrary: a)
  case Nil
  then show ?case by simp
next
  case (Cons c cs)
  from Cons.prems obtain w where w: "digitValue c = Some w"
    and r: "digits (10 * a + w) cs = Some v"
    by (auto split: option.splits)
  from digitValue_range [OF w] have wb: "0 \<le> w" "w \<le> 9" by auto
  from Cons.IH [OF r] have lo: "(10 * a + w) * 10 ^ length cs \<le> v"
    and hi: "v < (10 * a + w + 1) * 10 ^ length cs" by auto
  have "a * 10 ^ length (c # cs) = (10 * a) * 10 ^ length cs" by simp
  also have "\<dots> \<le> (10 * a + w) * 10 ^ length cs"
    using wb by (intro mult_right_mono) auto
  finally have 1: "a * 10 ^ length (c # cs) \<le> v" using lo by linarith
  have "(10 * a + w + 1) * 10 ^ length cs \<le> (10 * (a + 1)) * 10 ^ length cs"
    using wb by (intro mult_right_mono) auto
  also have "\<dots> = (a + 1) * 10 ^ length (c # cs)" by simp
  finally have 2: "v < (a + 1) * 10 ^ length (c # cs)" using hi by linarith
  from 1 2 show ?case by blast
qed

lemma div_bounds:
  fixes x k :: int
  assumes "0 < k"
  shows "k * (x div k) \<le> x" and "x < k * (x div k) + k"
proof -
  have "x = k * (x div k) + x mod k" by simp
  moreover have "0 \<le> x mod k" "x mod k < k" using assms by simp_all
  ultimately show "k * (x div k) \<le> x" and "x < k * (x div k) + k" by linarith+
qed

lemma DayFromYear_range:
  assumes "0 \<le> y" "y \<le> 9999"
  shows "- 720000 \<le> DayFromYear y" and "DayFromYear y \<le> 2940000"
proof -
  define a b c where "a = (y - 1969) div 4" and "b = (y - 1901) div 100"
    and "c = (y - 1601) div 400"
  have f: "4 * a \<le> y - 1969" "y - 1969 < 4 * a + 4"
    "100 * b \<le> y - 1901" "y - 1901 < 100 * b + 100"
    "400 * c \<le> y - 1601" "y - 1601 < 400 * c + 400"
    unfolding a_def b_def c_def by (simp_all add: div_bounds)
  have d: "DayFromYear y = 365 * (y - 1970) + a - b + c"
    by (simp add: DayFromYear_def a_def b_def c_def)
  show "- 720000 \<le> DayFromYear y" using f assms unfolding d by simp
  show "DayFromYear y \<le> 2940000" using f assms unfolding d by simp
qed

lemma MonthStart_range: "0 \<le> MonthStart leap m \<and> MonthStart leap m \<le> 366"
  by (simp add: MonthStart_def)

text \<open>A parsed date has a four-digit year, so it is far inside the range of a Date.\<close>

lemma Date_parse_range:
  assumes "Date_parse s = Num p"
  shows "- 70000000000000 \<le> p" and "p \<le> 260000000000000"
proof -
  from assms obtain y m d where len: "length s = 10"
    and y: "digits 0 (take 4 s) = Some y"
    and m: "1 \<le> m" "m \<le> 12" and d: "1 \<le> d"
      "d \<le> MonthStart (DaysInYear y = 366) m - MonthStart (DaysInYear y = 366) (m - 1)"
    and p: "p = MakeDate (MakeDay y (m - 1) d) 0"
    by (auto simp: Date_parse_def split: if_splits option.splits)
  from digits_range [OF y] len have yb: "0 \<le> y" "y \<le> 9999" by auto
  from DayFromYear_range [OF yb]
  have fy: "- 720000 \<le> DayFromYear y" "DayFromYear y \<le> 2940000" .
  have "MakeDay y (m - 1) d = DayFromYear y + MonthStart (DaysInYear y = 366) (m - 1) + d - 1"
    by (simp add: MakeDay_def)
  moreover have
    "MonthStart (DaysInYear y = 366) (m - 1) + d \<le> MonthStart (DaysInYear y = 366) m"
    using d by linarith
  moreover note MonthStart_range [of "DaysInYear y = 366" m]
    MonthStart_range [of "DaysInYear y = 366" "m - 1"]
  ultimately have "- 720000 \<le> MakeDay y (m - 1) d" "MakeDay y (m - 1) d \<le> 2940000 + 365"
    using fy d by linarith+
  then show "- 70000000000000 \<le> p" and "p \<le> 260000000000000"
    unfolding p MakeDate_def msPerDay_def by linarith+
qed

subsection \<open>The calendar\<close>

text \<open>\<open>YearFromDay\<close> is the year function of the standard: the one year whose first day
  is not after the day and whose successor's first day is; the day within the year, the
  month and the day of the month are then in their ranges.\<close>

lemma div_step:
  fixes x k :: int
  assumes "0 < k"
  shows "(x + 1) div k = x div k + (if (x + 1) mod k = 0 then 1 else 0)"
proof -
  define q r where "q = x div k" and "r = x mod k"
  have x: "x = q * k + r" and r: "0 \<le> r" "r < k"
    using assms by (simp_all add: q_def r_def)
  show ?thesis
  proof (cases "r + 1 = k")
    case True
    then have e: "x + 1 = (q + 1) * k" using x by (simp add: algebra_simps)
    have "(x + 1) div k = q + 1" unfolding e using assms by simp
    moreover have "(x + 1) mod k = 0" unfolding e by simp
    ultimately show ?thesis by (simp add: q_def)
  next
    case False
    with r have r1: "0 \<le> r + 1" "r + 1 < k" by simp_all
    have e: "x + 1 = q * k + (r + 1)" using x by simp
    have "(x + 1) div k = q" unfolding e using r1 by (simp add: div_pos_pos_trivial)
    moreover have "(x + 1) mod k = r + 1" unfolding e using r1 by (simp add: mod_pos_pos_trivial)
    ultimately show ?thesis using r1 r by (simp add: q_def)
  qed
qed

lemma mod_shift:
  fixes y c k :: int
  assumes "c mod k = 0"
  shows "(y - c) mod k = y mod k"
  using mod_diff_right_eq [of y c k] assms by simp

lemma DayFromYear_step: "DayFromYear (y + 1) = DayFromYear y + DaysInYear y"
proof -
  have a: "(y + 1 - 1969) div 4 = (y - 1969) div 4 + (if y mod 4 = 0 then 1 else 0)"
  proof -
    have "(y - 1969 + 1) mod 4 = y mod 4" using mod_shift [of 1968 4 y] by simp
    with div_step [of 4 "y - 1969"] show ?thesis by (simp add: algebra_simps)
  qed
  have b: "(y + 1 - 1901) div 100 = (y - 1901) div 100 + (if y mod 100 = 0 then 1 else 0)"
  proof -
    have "(y - 1901 + 1) mod 100 = y mod 100" using mod_shift [of 1900 100 y] by simp
    with div_step [of 100 "y - 1901"] show ?thesis by (simp add: algebra_simps)
  qed
  have c: "(y + 1 - 1601) div 400 = (y - 1601) div 400 + (if y mod 400 = 0 then 1 else 0)"
  proof -
    have "(y - 1601 + 1) mod 400 = y mod 400" using mod_shift [of 1600 400 y] by simp
    with div_step [of 400 "y - 1601"] show ?thesis by (simp add: algebra_simps)
  qed
  have m1: "y mod 100 = 0" if "y mod 400 = 0"
  proof -
    from that have "400 dvd y" by (simp add: mod_eq_0_iff_dvd)
    moreover have "(100::int) dvd 400" by simp
    ultimately have "100 dvd y" by (rule dvd_trans [rotated])
    then show ?thesis by (simp add: mod_eq_0_iff_dvd)
  qed
  have m2: "y mod 4 = 0" if "y mod 100 = 0"
  proof -
    from that have "100 dvd y" by (simp add: mod_eq_0_iff_dvd)
    moreover have "(4::int) dvd 100" by simp
    ultimately have "4 dvd y" by (rule dvd_trans [rotated])
    then show ?thesis by (simp add: mod_eq_0_iff_dvd)
  qed
  show ?thesis
  proof (cases "y mod 4 = 0")
    case False
    with m1 m2 have "y mod 100 \<noteq> 0" "y mod 400 \<noteq> 0" by auto
    with False show ?thesis unfolding DayFromYear_def DaysInYear_def a b c by simp
  next
    case y4: True
    show ?thesis
    proof (cases "y mod 100 = 0")
      case False
      with m1 have "y mod 400 \<noteq> 0" by auto
      with False y4 show ?thesis unfolding DayFromYear_def DaysInYear_def a b c by simp
    next
      case y100: True
      show ?thesis
      proof (cases "y mod 400 = 0")
        case False
        with y4 y100 show ?thesis unfolding DayFromYear_def DaysInYear_def a b c by simp
      next
        case True
        with y4 y100 show ?thesis unfolding DayFromYear_def DaysInYear_def a b c by simp
      qed
    qed
  qed
qed

lemma DaysInYear_cases: "DaysInYear y = 365 \<or> DaysInYear y = 366"
  by (simp add: DaysInYear_def)

lemma DayFromYear_less: "DayFromYear y < DayFromYear (y + 1)"
  using DaysInYear_cases [of y] by (auto simp: DayFromYear_step)

lemma DayFromYear_mono: "y \<le> z \<Longrightarrow> DayFromYear y \<le> DayFromYear z"
proof (induction z rule: int_ge_induct)
  case base
  show ?case by simp
next
  case (step i)
  with DayFromYear_less [of i] show ?case by linarith
qed

lemma YearFromDay_bounds:
  "DayFromYear (YearFromDay d) \<le> d \<and> d < DayFromYear (YearFromDay d + 1)"
proof -
  define u where "u = (400 * d) div 146097"
  define y where "y = 1970 + u"
  have u: "146097 * u \<le> 400 * d" "400 * d < 146097 * u + 146097"
    unfolding u_def by (simp_all add: div_bounds)
  have yu: "y = 1970 + u" by (simp add: y_def)
  define a b c where "a = (y - 1 - 1969) div 4" and "b = (y - 1 - 1901) div 100"
    and "c = (y - 1 - 1601) div 400"
  have lo_f: "4 * a \<le> y - 1 - 1969" "y - 1 - 1901 < 100 * b + 100" "400 * c \<le> y - 1 - 1601"
    unfolding a_def b_def c_def by (simp_all add: div_bounds)
  have lo_d: "DayFromYear (y - 1) = 365 * (y - 1 - 1970) + a - b + c"
    by (simp add: DayFromYear_def a_def b_def c_def)
  have lo: "DayFromYear (y - 1) \<le> d"
    using lo_f u yu unfolding lo_d by simp
  define a' b' c' where "a' = (y + 2 - 1969) div 4" and "b' = (y + 2 - 1901) div 100"
    and "c' = (y + 2 - 1601) div 400"
  have hi_f: "y + 2 - 1969 < 4 * a' + 4" "100 * b' \<le> y + 2 - 1901"
    "y + 2 - 1601 < 400 * c' + 400"
    unfolding a'_def b'_def c'_def by (simp_all add: div_bounds)
  have hi_d: "DayFromYear (y + 2) = 365 * (y + 2 - 1970) + a' - b' + c'"
    by (simp add: DayFromYear_def a'_def b'_def c'_def)
  have hi: "d < DayFromYear (y + 2)"
    using hi_f u yu unfolding hi_d by simp
  have Y: "YearFromDay d =
    (if DayFromYear (y + 1) \<le> d then y + 1 else if DayFromYear y \<le> d then y else y - 1)"
    by (simp add: YearFromDay_def y_def u_def Let_def)
  show ?thesis
  proof (cases "DayFromYear (y + 1) \<le> d")
    case True
    with hi Y show ?thesis by (simp add: add.assoc)
  next
    case n1: False
    show ?thesis
    proof (cases "DayFromYear y \<le> d")
      case True
      with n1 Y show ?thesis by simp
    next
      case False
      with n1 Y lo show ?thesis by simp
    qed
  qed
qed

lemma YearFromDay_unique:
  assumes "DayFromYear y \<le> d" "d < DayFromYear (y + 1)"
  shows "YearFromDay d = y"
proof (rule ccontr)
  assume ne: "YearFromDay d \<noteq> y"
  from YearFromDay_bounds [of d]
  have b: "DayFromYear (YearFromDay d) \<le> d" "d < DayFromYear (YearFromDay d + 1)" by auto
  show False
  proof (cases "YearFromDay d < y")
    case True
    then have "YearFromDay d + 1 \<le> y" by simp
    from DayFromYear_mono [OF this] b(2) assms(1) show False by linarith
  next
    case False
    with ne have "y + 1 \<le> YearFromDay d" by simp
    from DayFromYear_mono [OF this] b(1) assms(2) show False by linarith
  qed
qed

lemma DayWithinYear_range:
  "0 \<le> DayWithinYear t \<and> DayWithinYear t < DaysInYear (YearFromTime t)"
  using YearFromDay_bounds [of "Day t"]
  by (simp add: DayWithinYear_def YearFromTime_def DayFromYear_step)

lemma MonthFromTime_range: "0 \<le> MonthFromTime t \<and> MonthFromTime t \<le> 11"
  by (simp add: MonthFromTime_def MonthFromDayWithinYear_def)

lemma DateFromTime_range:
  "1 \<le> DateFromTime t \<and>
   DateFromTime t \<le> MonthStart (InLeapYear t) (MonthFromTime t + 1) -
     MonthStart (InLeapYear t) (MonthFromTime t)"
proof -
  from DayWithinYear_range [of t] DaysInYear_cases [of "YearFromTime t"]
  have "0 \<le> DayWithinYear t" "DayWithinYear t < (if InLeapYear t then 366 else 365)"
    by (auto simp: InLeapYear_def)
  then show ?thesis
    unfolding DateFromTime_def MonthFromTime_def MonthFromDayWithinYear_def MonthStart_def
    by (cases "InLeapYear t") (simp_all split: if_splits)
qed

subsection \<open>ISO dates\<close>

text \<open>The ISO date of a time value in the range of a Date determines its UTC day: the
  returned strings stand for days, one to one.\<close>

lemma length_pad: "length (pad k n) = k"
  by (induction k arbitrary: n) simp_all

lemma digit_inject:
  assumes "digit a = digit b" "0 \<le> a" "a \<le> 9" "0 \<le> b" "b \<le> 9"
  shows "a = b"
proof -
  from assms(1) have "(of_char (char_of (48 + a)) :: int) = of_char (char_of (48 + b))"
    by (simp add: digit_def)
  then have "(48 + a) mod 256 = (48 + b) mod 256" by (simp add: of_char_of)
  moreover have "(48 + a) mod 256 = 48 + a" "(48 + b) mod 256 = 48 + b"
    using assms by simp_all
  ultimately show ?thesis by simp
qed

lemma pad_inject:
  "pad k a = pad k b \<Longrightarrow> 0 \<le> a \<Longrightarrow> a < 10 ^ k \<Longrightarrow> 0 \<le> b \<Longrightarrow> b < 10 ^ k \<Longrightarrow> a = b"
proof (induction k arbitrary: a b)
  case 0
  then show ?case by simp
next
  case (Suc k)
  from Suc.prems(1) have p: "pad k (a div 10) = pad k (b div 10)"
    and d: "digit (a mod 10) = digit (b mod 10)" by simp_all
  have "a div 10 = b div 10"
  proof (rule Suc.IH [OF p])
    show "0 \<le> a div 10" "0 \<le> b div 10" using Suc.prems by simp_all
    show "a div 10 < 10 ^ k" using Suc.prems(3) div_bounds(1) [of 10 a] by simp
    show "b div 10 < 10 ^ k" using Suc.prems(5) div_bounds(1) [of 10 b] by simp
  qed
  moreover have "a mod 10 = b mod 10"
    by (rule digit_inject [OF d]) simp_all
  ultimately show ?case by (metis div_mult_mod_eq)
qed


lemma length_YearString: "length (YearString y) = (if 0 \<le> y \<and> y \<le> 9999 then 4 else 7)"
  by (simp add: YearString_def length_pad)

lemma YearString_inject:
  assumes "YearString a = YearString b" "\<bar>a\<bar> < 1000000" "\<bar>b\<bar> < 1000000"
  shows "a = b"
proof (cases "0 \<le> a \<and> a \<le> 9999")
  case True
  with assms(1) length_YearString [of a] length_YearString [of b]
  have b: "0 \<le> b \<and> b \<le> 9999" by (auto split: if_splits)
  with True assms(1) have "pad 4 a = pad 4 b" by (simp add: YearString_def)
  from pad_inject [OF this] True b show ?thesis by simp
next
  case False
  with assms(1) length_YearString [of a] length_YearString [of b]
  have b: "\<not> (0 \<le> b \<and> b \<le> 9999)" by (auto split: if_splits)
  with False assms(1) have s: "(a < 0) = (b < 0)" and p: "pad 6 \<bar>a\<bar> = pad 6 \<bar>b\<bar>"
    by (auto simp: YearString_def split: if_splits)
  from pad_inject [OF p] assms(2,3) have "\<bar>a\<bar> = \<bar>b\<bar>" by simp
  with s show ?thesis by linarith
qed

lemma YearFromTime_range:
  assumes "\<bar>t\<bar> \<le> 8640000000000000"
  shows "\<bar>YearFromTime t\<bar> < 1000000"
proof -
  have "86400000 * (t div 86400000) \<le> t" "t < 86400000 * (t div 86400000) + 86400000"
    by (simp_all add: div_bounds)
  with assms have d: "- 100000000 \<le> Day t" "Day t \<le> 100000000"
    unfolding Day_def msPerDay_def by linarith+
  from YearFromDay_bounds [of "Day t"]
  have b: "DayFromYear (YearFromTime t) \<le> Day t" "Day t < DayFromYear (YearFromTime t + 1)"
    by (simp_all add: YearFromTime_def)
  have hi: "YearFromTime t < 1000000"
  proof (rule ccontr)
    assume "\<not> YearFromTime t < 1000000"
    then have "DayFromYear 1000000 \<le> DayFromYear (YearFromTime t)"
      by (intro DayFromYear_mono) simp
    moreover have "DayFromYear 1000000 = 364522972" by (simp add: DayFromYear_def)
    ultimately show False using b d by linarith
  qed
  have lo: "- 1000000 < YearFromTime t"
  proof (rule ccontr)
    assume "\<not> - 1000000 < YearFromTime t"
    then have "DayFromYear (YearFromTime t + 1) \<le> DayFromYear (- 999999)"
      by (intro DayFromYear_mono) simp
    moreover have "DayFromYear (- 999999) = - 365961662" by (simp add: DayFromYear_def)
    ultimately show False using b d by linarith
  qed
  from lo hi show ?thesis by linarith
qed

lemma Day_civil:
  "Day t = DayFromYear (YearFromTime t) +
     MonthStart (DaysInYear (YearFromTime t) = 366) (MonthFromTime t) + DateFromTime t - 1"
  using MakeDay_DateFromTime [of t 0] by (simp add: MakeDay_def)

lemma ISODate_inject:
  assumes "ISODate a = ISODate b" "\<bar>a\<bar> \<le> 8640000000000000" "\<bar>b\<bar> \<le> 8640000000000000"
  shows "Day a = Day b"
proof -
  let ?ya = "YearString (YearFromTime a)" and ?yb = "YearString (YearFromTime b)"
  let ?ra = "''-'' @ pad 2 (MonthFromTime a + 1) @ ''-'' @ pad 2 (DateFromTime a)"
  let ?rb = "''-'' @ pad 2 (MonthFromTime b + 1) @ ''-'' @ pad 2 (DateFromTime b)"
  from assms(1) have e: "?ya @ ?ra = ?yb @ ?rb" by (simp add: ISODate_def)
  have "length ?ra = length ?rb" by (simp add: length_pad)
  moreover from e have "length (?ya @ ?ra) = length (?yb @ ?rb)" by (rule arg_cong)
  ultimately have "length ?ya = length ?yb" by simp
  with e have y: "?ya = ?yb" and r: "?ra = ?rb" by simp_all
  from YearString_inject [OF y YearFromTime_range [OF assms(2)] YearFromTime_range [OF assms(3)]]
  have Y: "YearFromTime a = YearFromTime b" .
  from r have "pad 2 (MonthFromTime a + 1) @ ''-'' @ pad 2 (DateFromTime a) =
    pad 2 (MonthFromTime b + 1) @ ''-'' @ pad 2 (DateFromTime b)" by simp
  then have m: "pad 2 (MonthFromTime a + 1) = pad 2 (MonthFromTime b + 1)"
    and d: "pad 2 (DateFromTime a) = pad 2 (DateFromTime b)"
    by (simp_all add: length_pad)
  have "MonthFromTime a + 1 = MonthFromTime b + 1"
    using MonthFromTime_range [of a] MonthFromTime_range [of b]
    by (intro pad_inject [OF m]) simp_all
  then have M: "MonthFromTime a = MonthFromTime b" by simp
  have le31: "DateFromTime t \<le> 31" for t
    using DateFromTime_range [of t] MonthFromTime_range [of t]
    by (auto simp: MonthStart_def split: if_splits)
  have "DateFromTime a < 10 ^ 2" "DateFromTime b < 10 ^ 2"
    using le31 [of a] le31 [of b] by simp_all
  moreover have "0 \<le> DateFromTime a" "0 \<le> DateFromTime b"
    using DateFromTime_range [of a] DateFromTime_range [of b] by simp_all
  ultimately have D: "DateFromTime a = DateFromTime b"
    by (intro pad_inject [OF d])
  show ?thesis using Day_civil [of a] Day_civil [of b] Y M D by simp
qed

subsection \<open>What estimateDates returns\<close>

text \<open>A result is returned exactly when an estimate was chosen, the purchase date parses
  and the capped expiration Date is valid; the result is then the ISO date of that
  instant, the ISO date of the final restock instant, and the source of the estimate.\<close>

lemma estimateDates_Inr_iff:
  "estimateDates tz response input = Inr out \<longleftrightarrow>
     (\<exists>estimate src p e.
        chooseEstimate response input = Some (estimate, src) \<and>
        Date_parse (purchasedAt input) = Num p \<and>
        fst (calculateDates tz (Num p) estimate) = Num e \<and>
        out = \<lparr>estimatedExpirationAt = ISODate e,
               estimatedRestockAt =
                 ISODate (finalRestock e (snd (calculateDates tz (Num p) estimate))),
               source = src\<rparr>)"
proof (cases "chooseEstimate response input")
  case None
  then show ?thesis by (simp add: estimateDates_def)
next
  case (Some a)
  obtain estimate src where a: "a = (estimate, src)" by (cases a)
  show ?thesis
  proof (cases "Date_parse (purchasedAt input)")
    case NaN
    then show ?thesis using Some a by (simp add: estimateDates_def calculateDates_invalid)
  next
    case (Num p)
    obtain ed rd where c: "calculateDates tz (Num p) estimate = (ed, rd)"
      by (cases "calculateDates tz (Num p) estimate")
    show ?thesis
    proof (cases ed)
      case NaN
      then show ?thesis using Some a Num c by (simp add: estimateDates_def)
    next
      case (Num e)
      then show ?thesis using Some a \<open>Date_parse (purchasedAt input) = Num p\<close> c
        by (cases rd) (auto simp: estimateDates_def finalRestock_def min_def)
    qed
  qed
qed

subsection \<open>Evaluated dates\<close>

lemma parse_2024_01_01: "Date_parse ''2024-01-01'' = Num 1704067200000"
  by code_simp

lemma ISODate_2024_01_11: "ISODate 1704931200000 = ''2024-01-11''"
  by code_simp

lemma ISODate_2024_12_31: "ISODate 1735603200000 = ''2024-12-31''"
  by code_simp

lemma parse_2024_12_31: "Date_parse ''2024-12-31'' = Num 1735603200000"
  by code_simp

subsection \<open>The capped expiration instant\<close>

lemma fst_calculateDates_Some:
  assumes "Date_parse s = Num p" "shelf_life estimate = Some n"
    "\<bar>p + n * msPerDay\<bar> \<le> 8640000000000000"
  shows "fst (calculateDates tz (Num p) estimate) = Num (p + min n 365 * msPerDay)"
proof -
  from Date_parse_range [OF assms(1)]
  have mx: "addDays p (Some 365) = Num (p + 365 * msPerDay)"
    by (simp add: addDays_def TimeClip_def msPerDay_def)
  have raw: "addDays p (Some n) = Num (p + n * msPerDay)"
    using assms(3) by (simp add: addDays_def TimeClip_def)
  show ?thesis
    by (simp add: calculateDates_valid assms(2) mx raw min_def msPerDay_def)
qed

lemma fst_calculateDates_Num:
  assumes "Date_parse s = Num p" "fst (calculateDates tz (Num p) estimate) = Num e"
  shows "\<exists>n. shelf_life estimate = Some n \<and> \<bar>p + n * msPerDay\<bar> \<le> 8640000000000000 \<and>
    e = p + min n 365 * msPerDay"
proof (cases "shelf_life estimate")
  case None
  then show ?thesis using assms(2) by (simp add: calculateDates_valid addDays_def)
next
  case (Some n)
  from Date_parse_range [OF assms(1)]
  have mx: "addDays p (Some 365) = Num (p + 365 * msPerDay)"
    by (simp add: addDays_def TimeClip_def msPerDay_def)
  show ?thesis
  proof (cases "\<bar>p + n * msPerDay\<bar> \<le> 8640000000000000")
    case True
    from fst_calculateDates_Some [OF assms(1) Some True, of tz] assms(2) Some True
    show ?thesis by simp
  next
    case False
    then have "addDays p (Some n) = NaN" by (simp add: addDays_def TimeClip_def)
    then show ?thesis using assms(2) Some by (simp add: calculateDates_valid)
  qed
qed

lemma finalRestock_le: "finalRestock e rd \<le> e"
  by (cases rd) (simp_all add: finalRestock_def)

lemma addDays_range: "addDays p h = Num x \<Longrightarrow> \<bar>x\<bar> \<le> 8640000000000000"
  by (cases h) (auto simp: addDays_def TimeClip_def split: if_splits)

lemma calculateDates_range:
  "fst (calculateDates tz (Num p) estimate) = Num e \<Longrightarrow> \<bar>e\<bar> \<le> 8640000000000000"
  "snd (calculateDates tz (Num p) estimate) = Num r \<Longrightarrow> \<bar>r\<bar> \<le> 8640000000000000"
  by (auto simp: calculateDates_valid dest: addDays_range split: if_splits)

lemma finalRestock_range:
  assumes "fst (calculateDates tz (Num p) estimate) = Num e"
  shows "\<bar>finalRestock e (snd (calculateDates tz (Num p) estimate))\<bar> \<le> 8640000000000000"
proof (cases "snd (calculateDates tz (Num p) estimate)")
  case NaN
  with calculateDates_range(1) [OF assms] show ?thesis by (simp add: finalRestock_def)
next
  case (Num r)
  with calculateDates_range(1) [OF assms] calculateDates_range(2) [OF Num]
  show ?thesis by (simp add: finalRestock_def min_def)
qed

subsection \<open>The heuristic estimate\<close>

lemma keywordMatch_in_set:
  "keywordMatch nameLower ks = Some h \<Longrightarrow> h \<in> snd ` set ks"
  by (induction ks) (auto split: if_splits)

lemma HEURISTIC_RULES_authored:
  "list_all (\<lambda>(c, rules). authored (default_pair rules) \<and>
      list_all (\<lambda>(k, h). authored h) (keywords_entries rules)) HEURISTIC_RULES"
  by (simp add: HEURISTIC_RULES_def authored_def days_def)

lemma getHeuristicEstimate_authored:
  assumes "getHeuristicEstimate nm cat = Some h"
  shows "authored h"
proof (cases "getRules cat")
  case (Own rules)
  then have "(cat, rules) \<in> set HEURISTIC_RULES"
    by (auto simp: getRules_def split: option.splits if_splits dest: map_of_SomeD)
  with HEURISTIC_RULES_authored
  have d: "authored (default_pair rules)"
    and k: "\<forall>(k, h) \<in> set (keywords_entries rules). authored h"
    by (auto simp: list_all_iff)
  show ?thesis
  proof (cases "keywordMatch (toLowerCase nm) (keywords_entries rules)")
    case None
    with assms Own d show ?thesis by (simp add: getHeuristicEstimate_def)
  next
    case (Some r)
    with assms Own have "h = r" by (simp add: getHeuristicEstimate_def)
    with keywordMatch_in_set [OF Some] k show ?thesis by auto
  qed
next
  case Inherited
  with assms show ?thesis by (simp add: getHeuristicEstimate_def)
next
  case Undefined
  with assms show ?thesis by (auto simp: getHeuristicEstimate_def authored_def days_def)
qed

lemma getHeuristicEstimate_total:
  "getRules cat \<noteq> Inherited \<Longrightarrow> \<exists>h. getHeuristicEstimate nm cat = Some h"
  by (cases "getRules cat") (auto simp: getHeuristicEstimate_def split: option.splits)


lemma chooseEstimate_source:
  "chooseEstimate response input = Some (estimate, src) \<Longrightarrow>
   (getLLMEstimate response \<noteq> None \<longrightarrow> src = ''llm'') \<and>
   (getLLMEstimate response = None \<longrightarrow> src = ''heuristic'' \<and>
      getHeuristicEstimate (name input) (category input) = Some estimate)"
  by (auto simp: chooseEstimate_def split: option.splits)

subsection \<open>Keyword matching\<close>

lemma String_includes_iff: "String_includes s k \<longleftrightarrow> (\<exists>pre suf. s = pre @ k @ suf)"
proof (induction s)
  case Nil
  show ?case by auto
next
  case (Cons c cs)
  have "(\<exists>pre suf. c # cs = pre @ k @ suf) \<longleftrightarrow>
        (\<exists>suf. c # cs = k @ suf) \<or> (\<exists>pre suf. cs = pre @ k @ suf)"
  proof
    assume "\<exists>pre suf. c # cs = pre @ k @ suf"
    then obtain pre suf where e: "c # cs = pre @ k @ suf" by blast
    show "(\<exists>suf. c # cs = k @ suf) \<or> (\<exists>pre suf. cs = pre @ k @ suf)"
    proof (cases pre)
      case Nil
      with e show ?thesis by auto
    next
      case (Cons a pre')
      with e have "cs = pre' @ k @ suf" by simp
      then show ?thesis by blast
    qed
  next
    assume "(\<exists>suf. c # cs = k @ suf) \<or> (\<exists>pre suf. cs = pre @ k @ suf)"
    then show "\<exists>pre suf. c # cs = pre @ k @ suf"
    proof
      assume "\<exists>suf. c # cs = k @ suf"
      then obtain suf where "c # cs = [] @ k @ suf" by auto
      then show ?thesis by blast
    next
      assume "\<exists>pre suf. cs = pre @ k @ suf"
      then obtain pre suf where "c # cs = (c # pre) @ k @ suf" by auto
      then show ?thesis by blast
    qed
  qed
  with Cons.IH show ?case by (simp add: prefix_def)
qed

lemma keywordMatch_first:
  "i < length ks \<Longrightarrow> String_includes n (fst (ks ! i)) \<Longrightarrow>
   (\<And>j. j < i \<Longrightarrow> \<not> String_includes n (fst (ks ! j))) \<Longrightarrow>
   keywordMatch n ks = Some (snd (ks ! i))"
proof (induction ks arbitrary: i)
  case Nil
  then show ?case by simp
next
  case (Cons a ks)
  obtain k h where a: "a = (k, h)" by (cases a)
  show ?case
  proof (cases i)
    case 0
    with Cons.prems a show ?thesis by simp
  next
    case (Suc i')
    from Cons.prems(3) [of 0] Suc a have no: "\<not> String_includes n k" by simp
    have "keywordMatch n ks = Some (snd (ks ! i'))"
    proof (rule Cons.IH)
      show "i' < length ks" using Cons.prems(1) Suc by simp
      show "String_includes n (fst (ks ! i'))" using Cons.prems(2) Suc by simp
      show "\<not> String_includes n (fst (ks ! j))" if "j < i'" for j
        using Cons.prems(3) [of "Suc j"] that Suc by simp
    qed
    with no a Suc show ?thesis by simp
  qed
qed

subsection \<open>When a result is returned\<close>

lemma estimateDates_returns:
  assumes c: "chooseEstimate response input = Some (estimate, src)"
    and p: "Date_parse (purchasedAt input) = Num p"
    and n: "shelf_life estimate = Some n"
    and r: "\<bar>p + n * msPerDay\<bar> \<le> 8640000000000000"
  shows "estimateDates tz response input =
    Inr \<lparr>estimatedExpirationAt = ISODate (p + min n 365 * msPerDay),
         estimatedRestockAt = ISODate (finalRestock (p + min n 365 * msPerDay)
           (addDays p (restock estimate))),
         source = src\<rparr>"
  unfolding estimateDates_Inr_iff
  using c p fst_calculateDates_Some [OF p n r, of tz]
  by (simp add: calculateDates_valid)

subsection \<open>Categories absent from the table\<close>

lemma getHeuristicEstimate_fallback:
  "map_of HEURISTIC_RULES cat = None \<Longrightarrow> cat \<notin> set Object_prototype \<Longrightarrow>
   getHeuristicEstimate nm cat = Some (days 30 30)"
  by (simp add: getHeuristicEstimate_def getRules_def)

lemma getHeuristicEstimate_Exotic:
  "getHeuristicEstimate nm ''Exotic'' = Some (days 30 30)"
proof -
  have "map_of HEURISTIC_RULES ''Exotic'' = None" by code_simp
  moreover have "''Exotic'' \<notin> set Object_prototype" by code_simp
  ultimately show ?thesis by (rule getHeuristicEstimate_fallback)
qed

section \<open>The claims\<close>

text \<open>
  C1. For every input and every answer of the oracle for which \<open>estimateDates\<close> returns
  a result, the returned restock date is the ISO date of an instant that is not after
  the instant of the returned expiration date: it is the earlier of the capped
  expiration instant and the raw restock instant (the expiration instant when the raw
  restock Date is invalid), and the two returned strings are equal exactly when the two
  instants fall on the same UTC day. In particular, for the purchase date 2024-01-01 and
  an accepted pair of 10 shelf-life days and 400 restock days, both returned dates are
  2024-01-11.
\<close>

theorem restock_not_after_expiration:
  "(\<forall>out. estimateDates tz response input = Inr out \<longrightarrow>
      (\<exists>p estimate src e r.
         Date_parse (purchasedAt input) = Num p \<and>
         chooseEstimate response input = Some (estimate, src) \<and>
         fst (calculateDates tz (Num p) estimate) = Num e \<and>
         r = finalRestock e (snd (calculateDates tz (Num p) estimate)) \<and>
         estimatedExpirationAt out = ISODate e \<and>
         estimatedRestockAt out = ISODate r \<and>
         r \<le> e \<and> Day r \<le> Day e \<and>
         (estimatedRestockAt out = estimatedExpirationAt out) = (Day r = Day e))) \<and>
   (purchasedAt input = ''2024-01-01'' \<longrightarrow>
      estimateDates tz (JsonObject (Some 10) (Some 400)) input =
        Inr \<lparr>estimatedExpirationAt = ''2024-01-11'', estimatedRestockAt = ''2024-01-11'',
             source = ''llm''\<rparr>)"
proof (intro conjI allI impI)
  fix out
  assume "estimateDates tz response input = Inr out"
  then obtain estimate src p e where
    h: "chooseEstimate response input = Some (estimate, src)"
       "Date_parse (purchasedAt input) = Num p"
       "fst (calculateDates tz (Num p) estimate) = Num e"
       "out = \<lparr>estimatedExpirationAt = ISODate e,
               estimatedRestockAt =
                 ISODate (finalRestock e (snd (calculateDates tz (Num p) estimate))),
               source = src\<rparr>"
    unfolding estimateDates_Inr_iff by blast
  define r where "r = finalRestock e (snd (calculateDates tz (Num p) estimate))"
  have le: "r \<le> e" by (simp add: r_def finalRestock_le)
  have "(ISODate r = ISODate e) = (Day r = Day e)"
    using ISODate_inject [OF _ finalRestock_range [OF h(3)] calculateDates_range(1) [OF h(3)]]
      ISODate_Day [of r e]
    unfolding r_def by blast
  with h le show "\<exists>p estimate src e r.
         Date_parse (purchasedAt input) = Num p \<and>
         chooseEstimate response input = Some (estimate, src) \<and>
         fst (calculateDates tz (Num p) estimate) = Num e \<and>
         r = finalRestock e (snd (calculateDates tz (Num p) estimate)) \<and>
         estimatedExpirationAt out = ISODate e \<and>
         estimatedRestockAt out = ISODate r \<and>
         r \<le> e \<and> Day r \<le> Day e \<and>
         (estimatedRestockAt out = estimatedExpirationAt out) = (Day r = Day e)"
    by (auto simp: r_def Day_mono)
next
  assume d: "purchasedAt input = ''2024-01-01''"
  have c: "calculateDates tz (Num 1704067200000) \<lparr>shelf_life = Some 10, restock = Some 400\<rparr> =
    (Num 1704931200000, Num 1738627200000)"
    by (simp add: calculateDates_valid addDays_def TimeClip_def msPerDay_def)
  show "estimateDates tz (JsonObject (Some 10) (Some 400)) input =
        Inr \<lparr>estimatedExpirationAt = ''2024-01-11'', estimatedRestockAt = ''2024-01-11'',
             source = ''llm''\<rparr>"
    unfolding estimateDates_Inr_iff
    by (simp add: chooseEstimate_def d parse_2024_01_01 c finalRestock_def ISODate_2024_01_11)
qed

theorem restock_not_after_expiration_witness:
  "estimateDates 0 NetworkError
     \<lparr>name = ''Whole Milk'', category = ''Dairy'', purchasedAt = ''2024-01-01''\<rparr> =
     Inr \<lparr>estimatedExpirationAt = ''2024-01-08'', estimatedRestockAt = ''2024-01-08'',
          source = ''heuristic''\<rparr> \<and>
   (\<exists>e r. ''2024-01-08'' = ISODate e \<and> ''2024-01-08'' = ISODate r \<and> r \<le> e)"
proof -
  have ev: "estimateDates 0 NetworkError
     \<lparr>name = ''Whole Milk'', category = ''Dairy'', purchasedAt = ''2024-01-01''\<rparr> =
     Inr \<lparr>estimatedExpirationAt = ''2024-01-08'', estimatedRestockAt = ''2024-01-08'',
          source = ''heuristic''\<rparr>"
    by code_simp
  from restock_not_after_expiration [of 0 NetworkError
      "\<lparr>name = ''Whole Milk'', category = ''Dairy'', purchasedAt = ''2024-01-01''\<rparr>"] ev
  show ?thesis by fastforce
qed




text \<open>
  C3, as stated, fails on the value of the tag: a result whose estimate came from the
  oracle carries the source \<^verbatim>\<open>llm\<close>, not \<^verbatim>\<open>external\<close>.
\<close>

theorem source_tag_counterexample:
  "estimateDates 0 (JsonObject (Some 14) (Some 7))
     \<lparr>name = ''Greek Yogurt'', category = ''Dairy'', purchasedAt = ''2024-01-01''\<rparr> =
     Inr \<lparr>estimatedExpirationAt = ''2024-01-15'', estimatedRestockAt = ''2024-01-08'',
          source = ''llm''\<rparr> \<and>
   ''llm'' \<noteq> ''external''"
  by code_simp

text \<open>
  C3, amended. Every result \<open>estimateDates\<close> returns has the source \<^verbatim>\<open>llm\<close> when the
  oracle call gave an estimate and the source \<^verbatim>\<open>heuristic\<close> when it gave none; the
  source is always one of these two values.
\<close>

theorem source_reflects_path:
  assumes "estimateDates tz response input = Inr out"
  shows "(getLLMEstimate response \<noteq> None \<longrightarrow> source out = ''llm'') \<and>
         (getLLMEstimate response = None \<longrightarrow> source out = ''heuristic'') \<and>
         (source out = ''llm'' \<or> source out = ''heuristic'')"
proof -
  from assms obtain estimate where
    "chooseEstimate response input = Some (estimate, source out)"
    unfolding estimateDates_Inr_iff by auto
  from chooseEstimate_source [OF this] show ?thesis by blast
qed

theorem source_reflects_path_witness:
  "estimateDates 0 (JsonObject (Some 14) (Some 7))
     \<lparr>name = ''Greek Yogurt'', category = ''Dairy'', purchasedAt = ''2024-01-01''\<rparr> =
     Inr \<lparr>estimatedExpirationAt = ''2024-01-15'', estimatedRestockAt = ''2024-01-08'',
          source = ''llm''\<rparr> \<and>
   getLLMEstimate (JsonObject (Some 14) (Some 7)) \<noteq> None \<and>
   estimateDates 0 NotOk
     \<lparr>name = ''Greek Yogurt'', category = ''Dairy'', purchasedAt = ''2024-01-01''\<rparr> =
     Inr \<lparr>estimatedExpirationAt = ''2024-01-15'', estimatedRestockAt = ''2024-01-11'',
          source = ''heuristic''\<rparr> \<and>
   getLLMEstimate NotOk = None"
proof -
  have a: "estimateDates 0 (JsonObject (Some 14) (Some 7))
     \<lparr>name = ''Greek Yogurt'', category = ''Dairy'', purchasedAt = ''2024-01-01''\<rparr> =
     Inr \<lparr>estimatedExpirationAt = ''2024-01-15'', estimatedRestockAt = ''2024-01-08'',
          source = ''llm''\<rparr>"
    by code_simp
  have b: "estimateDates 0 NotOk
     \<lparr>name = ''Greek Yogurt'', category = ''Dairy'', purchasedAt = ''2024-01-01''\<rparr> =
     Inr \<lparr>estimatedExpirationAt = ''2024-01-15'', estimatedRestockAt = ''2024-01-11'',
          source = ''heuristic''\<rparr>"
    by code_simp
  from source_reflects_path [OF a] have "getLLMEstimate (JsonObject (Some 14) (Some 7)) \<noteq> None"
    by auto
  moreover from source_reflects_path [OF b] have "getLLMEstimate NotOk = None"
    by auto
  ultimately show ?thesis using a b by simp
qed

text \<open>
  C4. For a category of the rule table, the heuristic estimate is the pair of the first
  keyword, in the order of the table, that occurs in the lower-cased name as a
  substring. Among the keywords of Meat, \<^verbatim>\<open>frozen ground beef\<close> contains \<^verbatim>\<open>beef\<close>,
  \<^verbatim>\<open>ground\<close> and \<^verbatim>\<open>frozen\<close>, in this order of the table, and resolves to the pair of
  \<^verbatim>\<open>beef\<close>.
\<close>

theorem first_keyword_wins:
  assumes "map_of HEURISTIC_RULES cat = Some rules"
  shows
    "(\<forall>i < length (keywords_entries rules).
        (\<exists>pre suf. toLowerCase nm = pre @ fst (keywords_entries rules ! i) @ suf) \<and>
        (\<forall>j < i. \<not> (\<exists>pre suf. toLowerCase nm = pre @ fst (keywords_entries rules ! j) @ suf))
        \<longrightarrow> getHeuristicEstimate nm cat = Some (snd (keywords_entries rules ! i))) \<and>
     (\<exists>meat. map_of HEURISTIC_RULES ''Meat'' = Some meat \<and>
        map fst (filter (\<lambda>(keyword, rule). String_includes ''frozen ground beef'' keyword)
          (keywords_entries meat)) = [''beef'', ''ground'', ''frozen''] \<and>
        getHeuristicEstimate ''frozen ground beef'' ''Meat'' = Some (days 3 10) \<and>
        getHeuristicEstimate ''Frozen Ground BEEF'' ''Meat'' = Some (days 3 10))"
proof (intro conjI allI impI)
  fix i
  assume i: "i < length (keywords_entries rules)"
  assume "(\<exists>pre suf. toLowerCase nm = pre @ fst (keywords_entries rules ! i) @ suf) \<and>
        (\<forall>j < i. \<not> (\<exists>pre suf. toLowerCase nm = pre @ fst (keywords_entries rules ! j) @ suf))"
  then have "String_includes (toLowerCase nm) (fst (keywords_entries rules ! i))"
    and "\<And>j. j < i \<Longrightarrow> \<not> String_includes (toLowerCase nm) (fst (keywords_entries rules ! j))"
    by (simp_all add: String_includes_iff)
  from keywordMatch_first [OF i this]
  show "getHeuristicEstimate nm cat = Some (snd (keywords_entries rules ! i))"
    using assms by (simp add: getHeuristicEstimate_def getRules_def)
next
  have "map_of HEURISTIC_RULES ''Meat'' =
      Some \<lparr>default_pair = days 2 7, keywords_entries =
       [(''chicken'', days 2 7), (''beef'', days 3 10), (''pork'', days 3 10),
        (''fish'', days 1 7), (''ground'', days 1 7), (''frozen'', days 90 30)]\<rparr>"
    by (simp add: HEURISTIC_RULES_def)
  moreover have "map fst (filter (\<lambda>(keyword, rule). String_includes ''frozen ground beef'' keyword)
       [(''chicken'', days 2 7), (''beef'', days 3 10), (''pork'', days 3 10),
        (''fish'', days 1 7), (''ground'', days 1 7), (''frozen'', days 90 30)]) =
       [''beef'', ''ground'', ''frozen'']"
    by code_simp
  moreover have "getHeuristicEstimate ''frozen ground beef'' ''Meat'' = Some (days 3 10)"
    by code_simp
  moreover have "getHeuristicEstimate ''Frozen Ground BEEF'' ''Meat'' = Some (days 3 10)"
    by code_simp
  ultimately show "\<exists>meat. map_of HEURISTIC_RULES ''Meat'' = Some meat \<and>
        map fst (filter (\<lambda>(keyword, rule). String_includes ''frozen ground beef'' keyword)
          (keywords_entries meat)) = [''beef'', ''ground'', ''frozen''] \<and>
        getHeuristicEstimate ''frozen ground beef'' ''Meat'' = Some (days 3 10) \<and>
        getHeuristicEstimate ''Frozen Ground BEEF'' ''Meat'' = Some (days 3 10)"
    by simp
qed

theorem first_keyword_wins_witness:
  "getHeuristicEstimate ''Greek yogurt with cream'' ''Dairy'' = Some (days 14 10)"
proof -
  define ks where "ks = [(''milk'', days 7 7), (''cheese'', days 14 14), (''yogurt'', days 14 10),
        (''butter'', days 30 30), (''eggs'', days 25 14), (''cream'', days 5 10)]"
  have m: "map_of HEURISTIC_RULES ''Dairy'' =
      Some \<lparr>default_pair = days 7 10, keywords_entries = ks\<rparr>"
    by (simp add: HEURISTIC_RULES_def ks_def)
  have k: "ks ! 0 = (''milk'', days 7 7)" "ks ! 1 = (''cheese'', days 14 14)"
    "ks ! 2 = (''yogurt'', days 14 10)" "length ks = 6"
    by (simp_all add: ks_def)
  have l: "toLowerCase ''Greek yogurt with cream'' = ''greek yogurt with cream''"
    by code_simp
  have y: "\<exists>pre suf. toLowerCase ''Greek yogurt with cream'' = pre @ fst (ks ! 2) @ suf"
    unfolding l k String_includes_iff [symmetric] by code_simp
  have "\<not> String_includes ''greek yogurt with cream'' ''milk''" by code_simp
  then have n0: "\<not> (\<exists>pre suf. toLowerCase ''Greek yogurt with cream'' = pre @ fst (ks ! 0) @ suf)"
    unfolding l k fst_conv String_includes_iff .
  have "\<not> String_includes ''greek yogurt with cream'' ''cheese''" by code_simp
  then have n1: "\<not> (\<exists>pre suf. toLowerCase ''Greek yogurt with cream'' = pre @ fst (ks ! 1) @ suf)"
    unfolding l k fst_conv String_includes_iff .
  have n: "\<forall>j<2. \<not> (\<exists>pre suf. toLowerCase ''Greek yogurt with cream'' = pre @ fst (ks ! j) @ suf)"
  proof (intro allI impI)
    fix j :: nat
    assume "j < 2"
    then consider "j = 0" | "j = 1" by linarith
    then show "\<not> (\<exists>pre suf. toLowerCase ''Greek yogurt with cream'' = pre @ fst (ks ! j) @ suf)"
    proof cases
      case 1
      with n0 show ?thesis by blast
    next
      case 2
      with n1 show ?thesis by blast
    qed
  qed
  have "2 < length (keywords_entries \<lparr>default_pair = days 7 10, keywords_entries = ks\<rparr>)"
    by (simp add: k)
  with first_keyword_wins [OF m, of "''Greek yogurt with cream''"] y n
  have "getHeuristicEstimate ''Greek yogurt with cream'' ''Dairy'' = Some (snd (ks ! 2))"
    by (simp only: category_rule.simps)
  then show ?thesis by (simp only: k snd_conv)
qed

text \<open>
  C5. A rejected fetch, a status that is not 2xx, a body that is not JSON and a
  \<^verbatim>\<open>null\<close> body are caught in \<open>getLLMEstimate\<close> and lead to the heuristic path (see C9).
  A JSON body that lacks \<^verbatim>\<open>shelfLifeDays\<close> is not: \<open>getLLMEstimate\<close> returns an object
  whose \<open>shelf_life\<close> is undefined, \<open>estimateDates\<close> accepts it, the expiration Date
  becomes invalid and \<^verbatim>\<open>toISOString\<close> throws a RangeError to the caller, for every
  input, zone offset and \<^verbatim>\<open>restockDays\<close>.
\<close>

theorem missing_fields_rejected:
  "getLLMEstimate (JsonObject None restockDays) =
     Some \<lparr>shelf_life = None, restock = restockDays\<rparr> \<and>
   estimateDates tz (JsonObject None restockDays) input = Inl RangeError"
proof -
  have c: "chooseEstimate (JsonObject None restockDays) input =
      Some (\<lparr>shelf_life = None, restock = restockDays\<rparr>, ''llm'')"
    by (simp add: chooseEstimate_def)
  have "fst (calculateDates tz (Date_parse (purchasedAt input))
      \<lparr>shelf_life = None, restock = restockDays\<rparr>) = NaN"
    by (cases "Date_parse (purchasedAt input)")
       (simp_all add: calculateDates_valid calculateDates_invalid addDays_def)
  then show ?thesis
    by (auto simp: estimateDates_def c split: prod.splits)
qed




text \<open>
  C7. For the purchase date 2024-01-01 and an accepted estimate with a shelf life of 1000
  days, from whichever path, \<open>estimateDates\<close> returns the expiration date 2024-12-31:
  the 365-day cap, 2024 being a leap year of 366 days.
\<close>

theorem cap_365_days_2024:
  assumes "purchasedAt input = ''2024-01-01''"
    and "chooseEstimate response input = Some (estimate, src)"
    and "shelf_life estimate = Some 1000"
  shows "\<exists>out. estimateDates tz response input = Inr out \<and>
           estimatedExpirationAt out = ''2024-12-31'' \<and> source out = src \<and>
           Date_parse ''2024-12-31'' = Num (1704067200000 + 365 * msPerDay) \<and>
           Date_parse ''2024-01-01'' = Num 1704067200000 \<and>
           DaysInYear 2024 = 366"
proof -
  have p: "Date_parse (purchasedAt input) = Num 1704067200000"
    by (simp add: assms(1) parse_2024_01_01)
  have "\<bar>1704067200000 + 1000 * msPerDay\<bar> \<le> 8640000000000000"
    by (simp add: msPerDay_def)
  from estimateDates_returns [OF assms(2) p assms(3) this, of tz]
  have "estimateDates tz response input =
    Inr \<lparr>estimatedExpirationAt = ''2024-12-31'',
         estimatedRestockAt = ISODate (finalRestock (1704067200000 + min 1000 365 * msPerDay)
           (addDays 1704067200000 (restock estimate))),
         source = src\<rparr>"
    by (simp add: msPerDay_def ISODate_2024_12_31)
  moreover have "DaysInYear 2024 = 366" by (simp add: DaysInYear_def)
  ultimately show ?thesis
    by (simp add: parse_2024_12_31 parse_2024_01_01 msPerDay_def)
qed

theorem cap_365_days_2024_witness:
  "\<exists>out. estimateDates (- 18000000) (JsonObject (Some 1000) (Some 1000))
       \<lparr>name = ''Canned Beans'', category = ''Pantry'', purchasedAt = ''2024-01-01''\<rparr> =
       Inr out \<and> estimatedExpirationAt out = ''2024-12-31'' \<and> source out = ''llm''"
proof -
  have "chooseEstimate (JsonObject (Some 1000) (Some 1000))
       \<lparr>name = ''Canned Beans'', category = ''Pantry'', purchasedAt = ''2024-01-01''\<rparr> =
       Some (\<lparr>shelf_life = Some 1000, restock = Some 1000\<rparr>, ''llm'')"
    by (simp add: chooseEstimate_def)
  from cap_365_days_2024 [OF _ this, of "- 18000000"] show ?thesis by auto
qed

text \<open>
  C8. The category \<^verbatim>\<open>constructor\<close> is absent from the rule table, but
  \<^verbatim>\<open>HEURISTIC_RULES['constructor']\<close> is the inherited \<^verbatim>\<open>Object\<close> function, which is
  truthy: the fallback pair is not returned, \<open>getHeuristicEstimate\<close> returns
  \<^verbatim>\<open>undefined\<close>, and \<open>estimateDates\<close> throws a TypeError. (For an absent category that
  is not a name of \<^verbatim>\<open>Object.prototype\<close> the fallback pair of 30 and 30 days is
  returned: lemma \<open>getHeuristicEstimate_fallback\<close>.)
\<close>

theorem inherited_category_undefined:
  "map_of HEURISTIC_RULES ''constructor'' = None \<and>
   getHeuristicEstimate ''Whole Milk'' ''constructor'' = None \<and>
   estimateDates 0 NetworkError
     \<lparr>name = ''Whole Milk'', category = ''constructor'', purchasedAt = ''2024-01-01''\<rparr> =
     Inl TypeError"
  by code_simp



text \<open>
  C10. Every pair the heuristic estimate returns has a restock count of at least 7 days
  (and a pair is returned for every category that is not a name inherited from
  \<^verbatim>\<open>Object.prototype\<close>), and every result returned on the heuristic path has a restock
  date that is not before the purchase date.
\<close>

theorem heuristic_restock_not_before_purchase:
  "(\<forall>h. getHeuristicEstimate nm cat = Some h \<longrightarrow> (\<exists>n. restock h = Some n \<and> 7 \<le> n)) \<and>
   (getRules cat \<noteq> Inherited \<longrightarrow>
      (\<exists>h n. getHeuristicEstimate nm cat = Some h \<and> restock h = Some n \<and> 7 \<le> n)) \<and>
   (\<forall>out. getLLMEstimate response = None \<and> estimateDates tz response input = Inr out \<longrightarrow>
      (\<exists>p estimate e r.
         Date_parse (purchasedAt input) = Num p \<and>
         getHeuristicEstimate (name input) (category input) = Some estimate \<and>
         fst (calculateDates tz (Num p) estimate) = Num e \<and>
         r = finalRestock e (snd (calculateDates tz (Num p) estimate)) \<and>
         estimatedRestockAt out = ISODate r \<and>
         p \<le> r \<and> Day p \<le> Day r))"
proof (intro conjI allI impI)
  fix h
  assume "getHeuristicEstimate nm cat = Some h"
  from getHeuristicEstimate_authored [OF this]
  show "\<exists>n. restock h = Some n \<and> 7 \<le> n"
    by (auto simp: authored_def split: option.splits)
next
  assume "getRules cat \<noteq> Inherited"
  from getHeuristicEstimate_total [OF this, of nm] obtain h where
    h: "getHeuristicEstimate nm cat = Some h" by blast
  from getHeuristicEstimate_authored [OF h] have "\<exists>n. restock h = Some n \<and> 7 \<le> n"
    by (auto simp: authored_def split: option.splits)
  with h show "\<exists>h n. getHeuristicEstimate nm cat = Some h \<and> restock h = Some n \<and> 7 \<le> n"
    by blast
next
  fix out
  assume a: "getLLMEstimate response = None \<and> estimateDates tz response input = Inr out"
  then obtain estimate src p e where
    h: "chooseEstimate response input = Some (estimate, src)"
       "Date_parse (purchasedAt input) = Num p"
       "fst (calculateDates tz (Num p) estimate) = Num e"
       "estimatedRestockAt out =
          ISODate (finalRestock e (snd (calculateDates tz (Num p) estimate)))"
    unfolding estimateDates_Inr_iff by auto
  from chooseEstimate_source [OF h(1)] a
  have g: "getHeuristicEstimate (name input) (category input) = Some estimate" by simp
  from getHeuristicEstimate_authored [OF g] obtain s m where
    sm: "shelf_life estimate = Some s" "1 \<le> s" "restock estimate = Some m" "7 \<le> m" "m \<le> 180"
    by (auto simp: authored_def split: option.splits)
  from fst_calculateDates_Num [OF h(2) h(3)] sm(1)
  have e: "e = p + min s 365 * msPerDay" by simp
  have pe: "p \<le> e" unfolding e using sm(2) by (simp add: msPerDay_def)
  from Date_parse_range [OF h(2)] sm
  have rd: "snd (calculateDates tz (Num p) estimate) = Num (p + m * msPerDay)"
    by (simp add: calculateDates_valid addDays_def TimeClip_def msPerDay_def)
  have "p \<le> finalRestock e (snd (calculateDates tz (Num p) estimate))"
    unfolding rd using pe sm(4) by (simp add: finalRestock_def msPerDay_def)
  with h g show "\<exists>p estimate e r.
         Date_parse (purchasedAt input) = Num p \<and>
         getHeuristicEstimate (name input) (category input) = Some estimate \<and>
         fst (calculateDates tz (Num p) estimate) = Num e \<and>
         r = finalRestock e (snd (calculateDates tz (Num p) estimate)) \<and>
         estimatedRestockAt out = ISODate r \<and>
         p \<le> r \<and> Day p \<le> Day r"
    by (auto simp: Day_mono)
qed

theorem heuristic_restock_not_before_purchase_witness:
  "getHeuristicEstimate ''Orange Juice'' ''Beverages'' = Some (days 7 14) \<and>
   (\<exists>n. restock (days 7 14) = Some n \<and> 7 \<le> n) \<and>
   estimateDates 0 NetworkError
     \<lparr>name = ''Orange Juice'', category = ''Beverages'', purchasedAt = ''2024-01-01''\<rparr> =
     Inr \<lparr>estimatedExpirationAt = ''2024-01-08'', estimatedRestockAt = ''2024-01-08'',
          source = ''heuristic''\<rparr> \<and>
   (\<exists>p r. Date_parse ''2024-01-01'' = Num p \<and> ''2024-01-08'' = ISODate r \<and> p \<le> r)"
proof -
  have g: "getHeuristicEstimate ''Orange Juice'' ''Beverages'' = Some (days 7 14)"
    by code_simp
  have ev: "estimateDates 0 NetworkError
     \<lparr>name = ''Orange Juice'', category = ''Beverages'', purchasedAt = ''2024-01-01''\<rparr> =
     Inr \<lparr>estimatedExpirationAt = ''2024-01-08'', estimatedRestockAt = ''2024-01-08'',
          source = ''heuristic''\<rparr>"
    by code_simp
  have u: "getLLMEstimate NetworkError = None" by simp
  note t = heuristic_restock_not_before_purchase [of "''Orange Juice''" "''Beverages''"
      NetworkError 0
      "\<lparr>name = ''Orange Juice'', category = ''Beverages'', purchasedAt = ''2024-01-01''\<rparr>"]
  from t g have 1: "\<exists>n. restock (days 7 14) = Some n \<and> 7 \<le> n" by blast
  from t u ev have 2: "\<exists>p r. Date_parse ''2024-01-01'' = Num p \<and>
      ''2024-01-08'' = ISODate r \<and> p \<le> r"
    by fastforce
  from g 1 ev 2 show ?thesis by blast
qed

end
